theory Spec2Isabelle
  imports Main
begin

section \<open>The Pomodoro timer of script.js\<close>

text \<open>
  The page script keeps two module-level objects, \<open>config\<close> and \<open>state\<close>, an audio
  context, and talks to three browser facilities: the DOM (written by \<open>render\<close>), the
  animation-frame callback list (\<open>requestAnimationFrame\<close>, \<open>cancelAnimationFrame\<close>) and
  the Web Audio oscillator (\<open>playSound\<close>). Every function of the script is a function
  from page to page here; the clock readings the script takes (\<open>performance.now()\<close>, the
  timestamp handed to a frame callback) are parameters.

  JavaScript numbers are modelled as \<open>int\<close>, which is what the script computes as long
  as its numbers are integers of magnitude at most \<open>2 ^ 53\<close>, where the arithmetic of
  doubles is exact: so it is for every duration parameter up to \<open>2 ^ 53 div 60\<close> minutes.
  The clock readings, which a browser gives in milliseconds with a fraction, are taken in
  whole milliseconds. Strings are lists of \<open>char\<close>, that is of code units below 256.
\<close>

subsection \<open>Data\<close>

datatype mode = WORK | SHORT | LONG

record config =
  work :: int
  short :: int
  long :: int
  auto :: bool
  sound :: string

record state =
  mode :: mode
  timeRemaining :: int
  isRunning :: bool
  cycleCount :: int
  timerInterval :: "nat option"  \<comment> \<open>\<open>null\<close>, or the handle of the last requested frame\<close>

text \<open>What \<open>render\<close> writes: the document title, three text nodes, the class of the body
  and whether each of the two buttons carries the class \<open>hidden\<close>.\<close>

record display =
  title :: string
  timeDisplay :: string
  modeDisplay :: string
  cycleDisplay :: string
  bodyClass :: string
  startHidden :: bool
  pauseHidden :: bool

text \<open>The two oscillator profiles of \<open>playSound\<close>: \<open>Bell\<close> is the sine at 500 Hz with an
  exponential decay over 1.5 s, \<open>Chime\<close> the triangle at 800 Hz with a linear decay over 1 s.\<close>

datatype cue = Bell | Chime

text \<open>
  A pending animation-frame callback is its handle and the \<open>lastTime\<close> variable of the
  \<open>loop\<close> closure it will call. Every closure has at most one request pending (it is
  requested once by \<open>startTimer\<close> and once more at the end of each of its own runs), so
  the variable lives with the request.
\<close>

record page =
  config :: config
  state :: state
  audioCtx :: bool  \<comment> \<open>whether \<open>audioCtx\<close> is non-null\<close>
  dom :: display
  frames :: "(nat \<times> int) list"
  nextHandle :: nat
  tones :: "cue list"  \<comment> \<open>the oscillators started so far, oldest first\<close>

definition DEFAULTS :: config where
  "DEFAULTS = \<lparr>work = 25, short = 5, long = 15, auto = False, sound = ''bell''\<rparr>"

subsection \<open>JavaScript built-ins the script uses\<close>

text \<open>The remainder operator \<open>%\<close>: the result has the sign of the dividend.\<close>

definition jsRem :: "int \<Rightarrow> int \<Rightarrow> int" where
  "jsRem a b = sgn a * (\<bar>a\<bar> mod \<bar>b\<bar>)"

text \<open>\<open>Number.prototype.toString\<close> on an integer: its decimal numeral.\<close>

definition digitChar :: "nat \<Rightarrow> char" where
  "digitChar d = char_of (48 + d)"

fun digitsOf :: "nat \<Rightarrow> string" where
  "digitsOf n = (if n < 10 then [digitChar n] else digitsOf (n div 10) @ [digitChar (n mod 10)])"

declare digitsOf.simps [simp del]

definition numToString :: "int \<Rightarrow> string" where
  "numToString n = (if n < 0 then CHR ''-'' # digitsOf (nat (- n)) else digitsOf (nat n))"

definition padStart :: "nat \<Rightarrow> char \<Rightarrow> string \<Rightarrow> string" where
  "padStart n c s = replicate (n - length s) c @ s"

text \<open>\<open>String.prototype.toLowerCase\<close> on ASCII, and the first piece of \<open>split('_')\<close>.\<close>

definition lowerChar :: "char \<Rightarrow> char" where
  "lowerChar c = (let n = (of_char c :: nat) in if 65 \<le> n \<and> n \<le> 90 then char_of (n + 32) else c)"

definition toLowerCase :: "string \<Rightarrow> string" where
  "toLowerCase s = map lowerChar s"

definition splitFirst :: "char \<Rightarrow> string \<Rightarrow> string" where
  "splitFirst sep s = takeWhile (\<lambda>c. c \<noteq> sep) s"

text \<open>
  \<open>parseInt\<close> with no radix, after ECMAScript: leading white space is dropped, then an
  optional sign, then \<open>0x\<close> or \<open>0X\<close> switches to radix 16; the longest run of digits of
  the radix is the numeral, whatever follows it is ignored, and an empty run is \<open>NaN\<close>
  (\<open>None\<close>). The white space and line terminators of ECMAScript among the code units
  below 256 are the tab, the line feed, the vertical tab, the form feed, the carriage
  return, the space and the no-break space. The result is the mathematical integer; the
  script gets the nearest double, which is the same number up to \<open>2 ^ 53\<close>.
\<close>

definition isWhiteSpace :: "char \<Rightarrow> bool" where
  "isWhiteSpace c = ((of_char c :: nat) \<in> {9, 10, 11, 12, 13, 32, 160})"

definition digitVal :: "char \<Rightarrow> nat option" where
  "digitVal c =
     (let n = (of_char c :: nat) in
      if 48 \<le> n \<and> n \<le> 57 then Some (n - 48)
      else if 97 \<le> n \<and> n \<le> 122 then Some (n - 87)
      else if 65 \<le> n \<and> n \<le> 90 then Some (n - 55)
      else None)"

definition isRadixDigit :: "nat \<Rightarrow> char \<Rightarrow> bool" where
  "isRadixDigit R c = (case digitVal c of None \<Rightarrow> False | Some d \<Rightarrow> d < R)"

definition radixValue :: "nat \<Rightarrow> string \<Rightarrow> nat" where
  "radixValue R Z = foldl (\<lambda>acc c. acc * R + (case digitVal c of None \<Rightarrow> 0 | Some d \<Rightarrow> d)) 0 Z"

definition parseInt :: "string \<Rightarrow> int option" where
  "parseInt inputString =
     (let S = dropWhile isWhiteSpace inputString;
          sign = (if S \<noteq> [] \<and> hd S = CHR ''-'' then - 1 else (1::int));
          S = (if S \<noteq> [] \<and> (hd S = CHR ''+'' \<or> hd S = CHR ''-'') then tl S else S);
          hex = (take 2 S = ''0x'' \<or> take 2 S = ''0X'');
          R = (if hex then 16 else 10);
          S = (if hex then drop 2 S else S);
          Z = takeWhile (isRadixDigit R) S
      in if Z = [] then None else Some (sign * int (radixValue R Z)))"

text \<open>\<open>URLSearchParams.get\<close>: the first value stored under the key, or \<open>null\<close>.\<close>

type_synonym params = "(string \<times> string) list"

definition params_get :: "params \<Rightarrow> string \<Rightarrow> string option" where
  "params_get ps key = map_of ps key"

text \<open>\<open>parseInt(params.get(key))\<close> turns its argument into a string first: \<open>null\<close>
  becomes the string \<open>null\<close>.\<close>

definition toStringOrNull :: "string option \<Rightarrow> string" where
  "toStringOrNull v = (case v of None \<Rightarrow> ''null'' | Some s \<Rightarrow> s)"

subsection \<open>Initialization\<close>

definition getPositiveIntParam :: "params \<Rightarrow> string \<Rightarrow> int \<Rightarrow> int" where
  "getPositiveIntParam ps key defaultVal =
     (case parseInt (toStringOrNull (params_get ps key)) of
        Some val \<Rightarrow> if val > 0 then val else defaultVal
      | None \<Rightarrow> defaultVal)"

definition parseUrlParams :: "params \<Rightarrow> config \<Rightarrow> config" where
  "parseUrlParams ps c =
     (let c = c\<lparr>work := getPositiveIntParam ps ''work'' (work DEFAULTS)\<rparr>;
          c = c\<lparr>short := getPositiveIntParam ps ''short'' (short DEFAULTS)\<rparr>;
          c = c\<lparr>long := getPositiveIntParam ps ''long'' (long DEFAULTS)\<rparr>;
          c = (case params_get ps ''auto'' of
                 None \<Rightarrow> c
               | Some autoParam \<Rightarrow> c\<lparr>auto := (autoParam = ''true'' \<or> autoParam = ''1'')\<rparr>)
      in case params_get ps ''sound'' of
           None \<Rightarrow> c
         | Some soundParam \<Rightarrow> if soundParam \<noteq> [] then c\<lparr>sound := soundParam\<rparr> else c)"

text \<open>\<open>initAudio\<close> creates the audio context when there is none (and resumes a
  suspended one, which the model does not tell apart from a running one).\<close>

definition initAudio :: "page \<Rightarrow> page" where
  "initAudio w = (if \<not> audioCtx w then w\<lparr>audioCtx := True\<rparr> else w)"

subsection \<open>Rendering\<close>

definition pad :: "int \<Rightarrow> string" where
  "pad num = padStart 2 CHR ''0'' (numToString num)"

definition getModeLabel :: "mode \<Rightarrow> string" where
  "getModeLabel m = (case m of WORK \<Rightarrow> ''Work Time'' | SHORT \<Rightarrow> ''Short Break'' | LONG \<Rightarrow> ''Long Break'')"

definition modeString :: "mode \<Rightarrow> string" where
  "modeString m = (case m of WORK \<Rightarrow> ''WORK'' | SHORT \<Rightarrow> ''SHORT'' | LONG \<Rightarrow> ''LONG'')"

definition render :: "page \<Rightarrow> page" where
  "render w =
     (let minutes = timeRemaining (state w) div 60;
          seconds = jsRem (timeRemaining (state w)) 60;
          timeString = pad minutes @ '':'' @ pad seconds;
          modeLabel = getModeLabel (mode (state w))
      in w\<lparr>dom := \<lparr>title = ''('' @ timeString @ '') '' @ modeLabel,
                    timeDisplay = timeString,
                    modeDisplay = modeLabel,
                    cycleDisplay = ''Cycle '' @ numToString (cycleCount (state w)) @ ''/3'',
                    bodyClass = ''mode-'' @ splitFirst CHR ''_'' (toLowerCase (modeString (mode (state w)))),
                    startHidden = isRunning (state w),
                    pauseHidden = (\<not> isRunning (state w))\<rparr>\<rparr>)"

subsection \<open>Timer logic\<close>

definition setModeTime :: "page \<Rightarrow> page" where
  "setModeTime w =
     (case mode (state w) of
        WORK \<Rightarrow> w\<lparr>state := (state w)\<lparr>timeRemaining := work (config w) * 60\<rparr>\<rparr>
      | SHORT \<Rightarrow> w\<lparr>state := (state w)\<lparr>timeRemaining := short (config w) * 60\<rparr>\<rparr>
      | LONG \<Rightarrow> w\<lparr>state := (state w)\<lparr>timeRemaining := long (config w) * 60\<rparr>\<rparr>)"

definition resetCycle :: "page \<Rightarrow> page" where
  "resetCycle w =
     (let w = w\<lparr>state := (state w)\<lparr>mode := WORK\<rparr>\<rparr>;
          w = w\<lparr>state := (state w)\<lparr>cycleCount := 1\<rparr>\<rparr>;
          w = setModeTime w;
          w = w\<lparr>state := (state w)\<lparr>isRunning := False\<rparr>\<rparr>
      in render w)"

text \<open>\<open>requestAnimationFrame(loop)\<close> for the closure whose \<open>lastTime\<close> is given: the
  request joins the callback list and its handle, a fresh positive number, is returned.\<close>

definition requestAnimationFrame :: "int \<Rightarrow> page \<Rightarrow> nat \<times> page" where
  "requestAnimationFrame lastTime w =
     (nextHandle w, w\<lparr>frames := frames w @ [(nextHandle w, lastTime)], nextHandle := Suc (nextHandle w)\<rparr>)"

definition cancelAnimationFrame :: "nat \<Rightarrow> page \<Rightarrow> page" where
  "cancelAnimationFrame h w = w\<lparr>frames := filter (\<lambda>f. fst f \<noteq> h) (frames w)\<rparr>"

text \<open>\<open>startTimer\<close> up to its first request; \<open>now\<close> is the reading of
  \<open>performance.now()\<close>.\<close>

definition startTimer :: "int \<Rightarrow> page \<Rightarrow> page" where
  "startTimer now w =
     (if isRunning (state w) then w
      else
        let w = w\<lparr>state := (state w)\<lparr>isRunning := True\<rparr>\<rparr>;
            lastTime = now;
            (h, w) = requestAnimationFrame lastTime w;
            w = w\<lparr>state := (state w)\<lparr>timerInterval := Some h\<rparr>\<rparr>
        in render w)"

definition pauseTimer :: "page \<Rightarrow> page" where
  "pauseTimer w =
     (let w = w\<lparr>state := (state w)\<lparr>isRunning := False\<rparr>\<rparr>;
          w = (case timerInterval (state w) of
                 None \<Rightarrow> w
               | Some h \<Rightarrow> if h \<noteq> 0 then cancelAnimationFrame h w else w)
      in render w)"

definition playSound :: "string \<Rightarrow> page \<Rightarrow> page" where
  "playSound type w =
     (if \<not> audioCtx w then w
      else if type = ''bell'' then w\<lparr>tones := tones w @ [Bell]\<rparr>
      else w\<lparr>tones := tones w @ [Chime]\<rparr>)"

text \<open>The choice of the next mode inside \<open>completeSession\<close>, branch by branch.\<close>

definition nextMode :: "state \<Rightarrow> state" where
  "nextMode s =
     (case mode s of
        WORK \<Rightarrow>
          if jsRem (cycleCount s) 4 = 0 then
            (if cycleCount s \<ge> 3 then s\<lparr>mode := LONG\<rparr> else s\<lparr>mode := SHORT\<rparr>)
          else s\<lparr>mode := SHORT\<rparr>
      | SHORT \<Rightarrow> s\<lparr>mode := WORK, cycleCount := cycleCount s + 1\<rparr>
      | LONG \<Rightarrow> s\<lparr>mode := WORK, cycleCount := 1\<rparr>)"

definition completeSession :: "int \<Rightarrow> bool \<Rightarrow> page \<Rightarrow> page" where
  "completeSession now skipped w =
     (let w = pauseTimer w;
          w = w\<lparr>state := (state w)\<lparr>timeRemaining := 0\<rparr>\<rparr>;
          w = render w;
          w = (if \<not> skipped \<and> sound (config w) \<noteq> ''none'' then playSound (sound (config w)) w else w);
          w = w\<lparr>state := nextMode (state w)\<rparr>;
          w = setModeTime w
      in if auto (config w) then startTimer now w else render w)"

definition skipSession :: "int \<Rightarrow> page \<Rightarrow> page" where
  "skipSession now w = completeSession now True (pauseTimer w)"

text \<open>
  One run of the frame callback \<open>loop(currentTime)\<close> of the closure whose \<open>lastTime\<close>
  is given; \<open>now\<close> is what \<open>performance.now()\<close> reads should the run start a new timer.
  It is the script's run for clock readings in whole milliseconds and a remaining time
  below \<open>2 ^ 53\<close> seconds.
\<close>

definition loop :: "int \<Rightarrow> int \<Rightarrow> int \<Rightarrow> page \<Rightarrow> page" where
  "loop lastTime currentTime now w =
     (if \<not> isRunning (state w) then w
      else
        let deltaTime = currentTime - lastTime in
        if deltaTime \<ge> 1000 then
          (let w = w\<lparr>state := (state w)\<lparr>timeRemaining := timeRemaining (state w) - 1\<rparr>\<rparr>;
               lastTime = currentTime
           in if timeRemaining (state w) \<le> 0 then completeSession now False w
              else
                let w = render w;
                    (h, w) = requestAnimationFrame lastTime w
                in w\<lparr>state := (state w)\<lparr>timerInterval := Some h\<rparr>\<rparr>)
        else
          (let (h, w) = requestAnimationFrame lastTime w
           in w\<lparr>state := (state w)\<lparr>timerInterval := Some h\<rparr>\<rparr>))"

text \<open>
  A frame of the browser: the handles pending when the frame begins are taken in order;
  each one still pending (not cancelled meanwhile) is removed from the list and its
  callback runs with the frame's timestamp. Requests made during the frame wait for the
  next one.
\<close>

fun runCallbacks :: "int \<Rightarrow> int \<Rightarrow> nat list \<Rightarrow> page \<Rightarrow> page" where
  "runCallbacks currentTime now [] w = w"
| "runCallbacks currentTime now (h # hs) w =
     (case map_of (frames w) h of
        None \<Rightarrow> runCallbacks currentTime now hs w
      | Some lastTime \<Rightarrow>
          runCallbacks currentTime now hs (loop lastTime currentTime now (cancelAnimationFrame h w)))"

definition animationFrame :: "int \<Rightarrow> int \<Rightarrow> page \<Rightarrow> page" where
  "animationFrame currentTime now w = runCallbacks currentTime now (map fst (frames w)) w"

text \<open>The page before \<open>init\<close> runs, and \<open>init\<close>. The listeners that \<open>init\<close> installs are
  the three click handlers below.\<close>

definition blankDisplay :: display where
  "blankDisplay = \<lparr>title = [], timeDisplay = [], modeDisplay = [], cycleDisplay = [],
                    bodyClass = [], startHidden = False, pauseHidden = False\<rparr>"

definition loadedPage :: page where
  "loadedPage =
     \<lparr>config = DEFAULTS,
      state = \<lparr>mode = WORK, timeRemaining = 0, isRunning = False, cycleCount = 1, timerInterval = None\<rparr>,
      audioCtx = False, dom = blankDisplay, frames = [], nextHandle = 1, tones = []\<rparr>"

definition init :: "params \<Rightarrow> page" where
  "init ps = render (resetCycle (loadedPage\<lparr>config := parseUrlParams ps (config loadedPage)\<rparr>))"

definition clickStart :: "int \<Rightarrow> page \<Rightarrow> page" where
  "clickStart now w = startTimer now (initAudio w)"

definition clickPause :: "page \<Rightarrow> page" where
  "clickPause w = pauseTimer w"

definition clickReset :: "int \<Rightarrow> page \<Rightarrow> page" where
  "clickReset now w = skipSession now w"

subsection \<open>Runs of the page\<close>

text \<open>What can happen to the page after \<open>init\<close>: a click on one of the three buttons, a
  frame of the browser, or a completion of the session. A click and a frame carry the clock
  readings the script would take.\<close>

datatype event = Start int | Pause | Skip int | Frame int int | Complete int bool

fun step :: "event \<Rightarrow> page \<Rightarrow> page" where
  "step (Start now) w = clickStart now w"
| "step Pause w = clickPause w"
| "step (Skip now) w = clickReset now w"
| "step (Frame currentTime now) w = animationFrame currentTime now w"
| "step (Complete now skipped) w = completeSession now skipped w"

definition run :: "event list \<Rightarrow> page \<Rightarrow> page" where
  "run es w = fold step es w"

text \<open>Frames only, each given as its timestamp and the reading of \<open>performance.now()\<close>
  during it.\<close>

definition frameEvents :: "(int \<times> int) list \<Rightarrow> event list" where
  "frameEvents fs = map (\<lambda>f. Frame (fst f) (snd f)) fs"

text \<open>Frame timestamps exactly one second apart, the first one second after \<open>t\<close>.\<close>

fun everySecond :: "int \<Rightarrow> nat \<Rightarrow> int list" where
  "everySecond t 0 = []"
| "everySecond t (Suc n) = (t + 1000) # everySecond (t + 1000) n"

text \<open>Frame timestamps \<open>d\<close> milliseconds apart, the first \<open>d\<close> milliseconds after \<open>t\<close>.\<close>

fun everyMs :: "int \<Rightarrow> int \<Rightarrow> nat \<Rightarrow> int list" where
  "everyMs d t 0 = []"
| "everyMs d t (Suc n) = (t + d) # everyMs d (t + d) n"

subsection \<open>Notions used to state the properties\<close>

text \<open>The duration, in seconds, that \<open>setModeTime\<close> gives a mode.\<close>

definition modeDuration :: "config \<Rightarrow> mode \<Rightarrow> int" where
  "modeDuration c m = (case m of WORK \<Rightarrow> work c * 60 | SHORT \<Rightarrow> short c * 60 | LONG \<Rightarrow> long c * 60)"

text \<open>The timer is running with one frame request pending, whose closure holds
  \<open>lastTime\<close>.\<close>

definition ticking :: "page \<Rightarrow> int \<Rightarrow> bool" where
  "ticking w lastTime = (isRunning (state w) \<and> map snd (frames w) = [lastTime])"

text \<open>
  Among frames at the given timestamps, the accounted ones are those that come at least
  1000 ms after the previous accounted one (at first, after \<open>lastTime\<close>): \<open>accounted\<close>
  counts them and \<open>lastAccounted\<close> is the timestamp of the last one.
\<close>

fun accounted :: "int \<Rightarrow> int list \<Rightarrow> nat" where
  "accounted lastTime [] = 0"
| "accounted lastTime (t # ts) =
     (if 1000 \<le> t - lastTime then Suc (accounted t ts) else accounted lastTime ts)"

fun lastAccounted :: "int \<Rightarrow> int list \<Rightarrow> int" where
  "lastAccounted lastTime [] = lastTime"
| "lastAccounted lastTime (t # ts) =
     (if 1000 \<le> t - lastTime then lastAccounted t ts else lastAccounted lastTime ts)"

text \<open>
  A page at rest between two events: the DOM shows the state, handles are positive, and
  the frame requests pending are the one request of the running timer, whose handle is in
  \<open>timerInterval\<close>, or none when the timer is stopped.
\<close>

definition settled :: "page \<Rightarrow> bool" where
  "settled w =
     (dom w = dom (render w) \<and> 0 < nextHandle w \<and>
      (if isRunning (state w)
       then (case timerInterval (state w) of
               None \<Rightarrow> False
             | Some h \<Rightarrow> 0 < h \<and> map fst (frames w) = [h])
       else frames w = []))"

text \<open>What \<open>pauseTimer\<close> and \<open>completeSession\<close> need of the page they are called on
  to leave it at rest: whatever request is pending is the one \<open>timerInterval\<close> names.\<close>

definition cancellable :: "page \<Rightarrow> bool" where
  "cancellable w =
     (0 < nextHandle w \<and>
      (frames w = [] \<or>
       (case timerInterval (state w) of None \<Rightarrow> False | Some h \<Rightarrow> 0 < h \<and> map fst (frames w) = [h])))"

text \<open>The positions of the cycle that the transitions of \<open>completeSession\<close> can reach from
  the first work session.\<close>

definition cyclePosition :: "state \<Rightarrow> bool" where
  "cyclePosition s =
     (case mode s of
        WORK \<Rightarrow> 1 \<le> cycleCount s \<and> cycleCount s \<le> 4
      | SHORT \<Rightarrow> 1 \<le> cycleCount s \<and> cycleCount s \<le> 3
      | LONG \<Rightarrow> cycleCount s = 4)"

section \<open>Basic facts\<close>

subsection \<open>What each function leaves alone\<close>

lemma render_fields [simp]:
  "config (render w) = config w" "state (render w) = state w" "audioCtx (render w) = audioCtx w"
  "frames (render w) = frames w" "nextHandle (render w) = nextHandle w" "tones (render w) = tones w"
  by (simp_all add: render_def Let_def)

lemma render_idem [simp]: "render (render w) = render w"
  by (simp add: render_def Let_def)

lemma setModeTime_fields [simp]:
  "config (setModeTime w) = config w" "audioCtx (setModeTime w) = audioCtx w"
  "frames (setModeTime w) = frames w" "nextHandle (setModeTime w) = nextHandle w"
  "tones (setModeTime w) = tones w" "dom (setModeTime w) = dom w"
  "mode (state (setModeTime w)) = mode (state w)"
  "cycleCount (state (setModeTime w)) = cycleCount (state w)"
  "isRunning (state (setModeTime w)) = isRunning (state w)"
  "timerInterval (state (setModeTime w)) = timerInterval (state w)"
  by (simp_all add: setModeTime_def split: mode.splits)

lemma setModeTime_timeRemaining [simp]:
  "timeRemaining (state (setModeTime w)) = modeDuration (config w) (mode (state w))"
  by (simp add: setModeTime_def modeDuration_def split: mode.splits)

lemma pauseTimer_fields [simp]:
  "config (pauseTimer w) = config w" "audioCtx (pauseTimer w) = audioCtx w"
  "nextHandle (pauseTimer w) = nextHandle w" "tones (pauseTimer w) = tones w"
  "state (pauseTimer w) = (state w)\<lparr>isRunning := False\<rparr>"
  by (simp_all add: pauseTimer_def cancelAnimationFrame_def Let_def split: option.splits)

lemma playSound_fields [simp]:
  "config (playSound t w) = config w" "state (playSound t w) = state w"
  "audioCtx (playSound t w) = audioCtx w" "frames (playSound t w) = frames w"
  "nextHandle (playSound t w) = nextHandle w" "dom (playSound t w) = dom w"
  by (simp_all add: playSound_def)

lemma startTimer_fields [simp]:
  "config (startTimer now w) = config w" "audioCtx (startTimer now w) = audioCtx w"
  "tones (startTimer now w) = tones w"
  "mode (state (startTimer now w)) = mode (state w)"
  "cycleCount (state (startTimer now w)) = cycleCount (state w)"
  "timeRemaining (state (startTimer now w)) = timeRemaining (state w)"
  "isRunning (state (startTimer now w)) = True"
  by (simp_all add: startTimer_def requestAnimationFrame_def Let_def)

lemma nextMode_fields [simp]:
  "timeRemaining (nextMode s) = timeRemaining s" "isRunning (nextMode s) = isRunning s"
  "timerInterval (nextMode s) = timerInterval s"
  by (simp_all add: nextMode_def split: mode.splits)

lemma nextMode_cong:
  "mode s = mode s' \<Longrightarrow> cycleCount s = cycleCount s' \<Longrightarrow>
   mode (nextMode s) = mode (nextMode s') \<and> cycleCount (nextMode s) = cycleCount (nextMode s')"
  by (simp add: nextMode_def split: mode.splits)

lemma completeSession_fields [simp]:
  "config (completeSession now skipped w) = config w"
  "audioCtx (completeSession now skipped w) = audioCtx w"
  "mode (state (completeSession now skipped w)) = mode (nextMode (state w))"
  "cycleCount (state (completeSession now skipped w)) = cycleCount (nextMode (state w))"
  "isRunning (state (completeSession now skipped w)) = auto (config w)"
  "timeRemaining (state (completeSession now skipped w)) =
     modeDuration (config w) (mode (nextMode (state w)))"
     apply (simp_all add: completeSession_def Let_def)
  using nextMode_cong[of "(state w)\<lparr>isRunning := False, timeRemaining := 0\<rparr>" "state w"]
  apply auto
  done

lemma completeSession_tones:
  "tones (completeSession now skipped w) =
     tones w @ (if \<not> skipped \<and> sound (config w) \<noteq> ''none'' \<and> audioCtx w
                then [if sound (config w) = ''bell'' then Bell else Chime] else [])"
  by (simp add: completeSession_def Let_def playSound_def)

lemma run_simps [simp]: "run [] w = w" "run (e # es) w = run es (step e w)"
  by (simp_all add: run_def)

lemma run_append: "run (es @ es') w = run es' (run es w)"
  by (simp add: run_def)

subsection \<open>Frames\<close>

text \<open>A frame on a page with exactly one pending request runs just that callback.\<close>

lemma animationFrame_single:
  "frames w = [(h, lt)] \<Longrightarrow> animationFrame t now w = loop lt t now (w\<lparr>frames := []\<rparr>)"
  by (simp add: animationFrame_def cancelAnimationFrame_def)

lemma animationFrame_empty: "frames w = [] \<Longrightarrow> animationFrame t now w = w"
  by (simp add: animationFrame_def)

lemma loop_not_running: "\<not> isRunning (state w) \<Longrightarrow> loop lt t now w = w"
  by (simp add: loop_def)

lemma loop_wait:
  "isRunning (state w) \<Longrightarrow> t - lt < 1000 \<Longrightarrow>
   loop lt t now w =
     w\<lparr>frames := frames w @ [(nextHandle w, lt)], nextHandle := Suc (nextHandle w),
       state := (state w)\<lparr>timerInterval := Some (nextHandle w)\<rparr>\<rparr>"
  by (simp add: loop_def requestAnimationFrame_def Let_def)

lemma loop_tick:
  "isRunning (state w) \<Longrightarrow> 1000 \<le> t - lt \<Longrightarrow> 1 < timeRemaining (state w) \<Longrightarrow>
   loop lt t now w =
     (render (w\<lparr>state := (state w)\<lparr>timeRemaining := timeRemaining (state w) - 1\<rparr>\<rparr>))
       \<lparr>frames := frames w @ [(nextHandle w, t)], nextHandle := Suc (nextHandle w),
        state := (state w)\<lparr>timeRemaining := timeRemaining (state w) - 1,
                            timerInterval := Some (nextHandle w)\<rparr>\<rparr>"
  by (simp add: loop_def requestAnimationFrame_def Let_def)

lemma loop_complete:
  "isRunning (state w) \<Longrightarrow> 1000 \<le> t - lt \<Longrightarrow> timeRemaining (state w) \<le> 1 \<Longrightarrow>
   loop lt t now w =
     completeSession now False (w\<lparr>state := (state w)\<lparr>timeRemaining := timeRemaining (state w) - 1\<rparr>\<rparr>)"
  by (simp add: loop_def Let_def)

lemma frameEvents_simps [simp]:
  "frameEvents [] = []" "frameEvents (f # fs) = Frame (fst f) (snd f) # frameEvents fs"
  "frameEvents (fs @ gs) = frameEvents fs @ frameEvents gs"
  by (simp_all add: frameEvents_def)

lemma ticking_frame_wait:
  assumes "ticking w lt" "t - lt < 1000"
  shows "ticking (animationFrame t now w) lt"
    and "timeRemaining (state (animationFrame t now w)) = timeRemaining (state w)"
    and "mode (state (animationFrame t now w)) = mode (state w)"
    and "cycleCount (state (animationFrame t now w)) = cycleCount (state w)"
    and "config (animationFrame t now w) = config w"
    and "tones (animationFrame t now w) = tones w"
    and "audioCtx (animationFrame t now w) = audioCtx w"
proof -
  from assms(1) obtain h where f: "frames w = [(h, lt)]" and r: "isRunning (state w)"
    by (cases "frames w") (auto simp: ticking_def)
  have e: "animationFrame t now w = loop lt t now (w\<lparr>frames := []\<rparr>)"
    using f by (rule animationFrame_single)
  have l: "loop lt t now (w\<lparr>frames := []\<rparr>) =
      (w\<lparr>frames := []\<rparr>)\<lparr>frames := frames (w\<lparr>frames := []\<rparr>) @ [(nextHandle (w\<lparr>frames := []\<rparr>), lt)],
        nextHandle := Suc (nextHandle (w\<lparr>frames := []\<rparr>)),
        state := (state (w\<lparr>frames := []\<rparr>))\<lparr>timerInterval := Some (nextHandle (w\<lparr>frames := []\<rparr>))\<rparr>\<rparr>"
    using r assms(2) by (intro loop_wait) simp_all
  show "ticking (animationFrame t now w) lt"
    and "timeRemaining (state (animationFrame t now w)) = timeRemaining (state w)"
    and "mode (state (animationFrame t now w)) = mode (state w)"
    and "cycleCount (state (animationFrame t now w)) = cycleCount (state w)"
    and "config (animationFrame t now w) = config w"
    and "tones (animationFrame t now w) = tones w"
    and "audioCtx (animationFrame t now w) = audioCtx w"
    using r by (simp_all add: e l ticking_def)
qed

lemma ticking_frame_tick:
  assumes "ticking w lt" "1000 \<le> t - lt" "1 < timeRemaining (state w)"
  shows "ticking (animationFrame t now w) t"
    and "timeRemaining (state (animationFrame t now w)) = timeRemaining (state w) - 1"
    and "mode (state (animationFrame t now w)) = mode (state w)"
    and "cycleCount (state (animationFrame t now w)) = cycleCount (state w)"
    and "config (animationFrame t now w) = config w"
    and "tones (animationFrame t now w) = tones w"
    and "audioCtx (animationFrame t now w) = audioCtx w"
proof -
  from assms(1) obtain h where f: "frames w = [(h, lt)]" and r: "isRunning (state w)"
    by (cases "frames w") (auto simp: ticking_def)
  have e: "animationFrame t now w = loop lt t now (w\<lparr>frames := []\<rparr>)"
    using f by (rule animationFrame_single)
  have l: "loop lt t now (w\<lparr>frames := []\<rparr>) =
      (render ((w\<lparr>frames := []\<rparr>)\<lparr>state := (state (w\<lparr>frames := []\<rparr>))
          \<lparr>timeRemaining := timeRemaining (state (w\<lparr>frames := []\<rparr>)) - 1\<rparr>\<rparr>))
       \<lparr>frames := frames (w\<lparr>frames := []\<rparr>) @ [(nextHandle (w\<lparr>frames := []\<rparr>), t)],
        nextHandle := Suc (nextHandle (w\<lparr>frames := []\<rparr>)),
        state := (state (w\<lparr>frames := []\<rparr>))
          \<lparr>timeRemaining := timeRemaining (state (w\<lparr>frames := []\<rparr>)) - 1,
           timerInterval := Some (nextHandle (w\<lparr>frames := []\<rparr>))\<rparr>\<rparr>"
    using r assms(2,3) by (intro loop_tick) simp_all
  show "ticking (animationFrame t now w) t"
    and "timeRemaining (state (animationFrame t now w)) = timeRemaining (state w) - 1"
    and "mode (state (animationFrame t now w)) = mode (state w)"
    and "cycleCount (state (animationFrame t now w)) = cycleCount (state w)"
    and "config (animationFrame t now w) = config w"
    and "tones (animationFrame t now w) = tones w"
    and "audioCtx (animationFrame t now w) = audioCtx w"
    using r assms(2,3) by (simp_all add: e l ticking_def)
qed

lemma ticking_frame_complete:
  assumes "ticking w lt" "1000 \<le> t - lt" "timeRemaining (state w) \<le> 1"
  shows "animationFrame t now w =
     completeSession now False
       (w\<lparr>frames := [], state := (state w)\<lparr>timeRemaining := timeRemaining (state w) - 1\<rparr>\<rparr>)"
proof -
  from assms(1) obtain h where f: "frames w = [(h, lt)]" and r: "isRunning (state w)"
    by (cases "frames w") (auto simp: ticking_def)
  have e: "animationFrame t now w = loop lt t now (w\<lparr>frames := []\<rparr>)"
    using f by (rule animationFrame_single)
  show ?thesis
    using r assms(2,3) by (simp add: e loop_complete)
qed

text \<open>While the session does not complete, a run of frames over one ticking loop.\<close>

lemma frames_countdown:
  assumes "ticking w lt" "int (accounted lt (map fst fs)) < timeRemaining (state w)"
  shows "ticking (run (frameEvents fs) w) (lastAccounted lt (map fst fs)) \<and>
         timeRemaining (state (run (frameEvents fs) w)) =
           timeRemaining (state w) - int (accounted lt (map fst fs)) \<and>
         mode (state (run (frameEvents fs) w)) = mode (state w) \<and>
         cycleCount (state (run (frameEvents fs) w)) = cycleCount (state w) \<and>
         config (run (frameEvents fs) w) = config w \<and>
         tones (run (frameEvents fs) w) = tones w \<and>
         audioCtx (run (frameEvents fs) w) = audioCtx w"
  using assms
proof (induction fs arbitrary: w lt)
  case Nil
  then show ?case by simp
next
  case (Cons f fs)
  show ?case
  proof (cases "1000 \<le> fst f - lt")
    case True
    with Cons.prems have r: "1 < timeRemaining (state w)"
      and a: "int (accounted (fst f) (map fst fs)) < timeRemaining (state w) - 1"
      by simp_all
    note s = ticking_frame_tick [OF Cons.prems(1) True r, of "snd f"]
    from a have "int (accounted (fst f) (map fst fs)) <
        timeRemaining (state (animationFrame (fst f) (snd f) w))"
      by (simp add: s(2))
    from Cons.IH [OF s(1) this] show ?thesis
      using True by (simp add: s)
  next
    case False
    then have lt: "fst f - lt < 1000" by simp
    note s = ticking_frame_wait [OF Cons.prems(1) lt, of "snd f"]
    from Cons.prems(2) False have "int (accounted lt (map fst fs)) <
        timeRemaining (state (animationFrame (fst f) (snd f) w))"
      by (simp add: s(2))
    from Cons.IH [OF s(1) this] show ?thesis
      using False by (simp add: s)
  qed
qed

text \<open>The frames that count are never more than the whole seconds that have elapsed: the
  loop can lose time, it cannot gain any.\<close>

lemma accounted_bound:
  "sorted (lt # ts) \<Longrightarrow> 1000 * int (accounted lt ts) \<le> last (lt # ts) - lt"
proof (induction ts arbitrary: lt)
  case Nil
  then show ?case by simp
next
  case (Cons t ts)
  show ?case
  proof (cases "1000 \<le> t - lt")
    case True
    from Cons.prems have "sorted (t # ts)" by simp
    from Cons.IH [OF this] True show ?thesis by simp
  next
    case False
    from Cons.prems have "sorted (lt # ts)" by auto
    from Cons.IH [OF this] False Cons.prems show ?thesis
      by (cases ts) auto
  qed
qed

lemma accounted_everySecond: "accounted t (everySecond t n) = n"
  by (induction n arbitrary: t) simp_all

lemma lastAccounted_everySecond: "lastAccounted t (everySecond t n) = t + 1000 * int n"
  by (induction n arbitrary: t) simp_all

lemma everySecond_snoc: "everySecond t (Suc n) = everySecond t n @ [t + 1000 * int (Suc n)]"
proof (induction n arbitrary: t)
  case 0
  show ?case by simp
next
  case (Suc n)
  have "everySecond t (Suc (Suc n)) = (t + 1000) # everySecond (t + 1000) (Suc n)"
    by (simp only: everySecond.simps)
  also have "\<dots> = (t + 1000) # (everySecond (t + 1000) n @ [t + 1000 + 1000 * int (Suc n)])"
    by (simp only: Suc.IH)
  also have "\<dots> = everySecond t (Suc n) @ [t + 1000 * int (Suc (Suc n))]"
    by (simp add: algebra_simps)
  finally show ?case .
qed

subsection \<open>Transitions, the first page, the Start button\<close>

lemma skipSession_fields [simp]:
  "config (skipSession now w) = config w"
  "audioCtx (skipSession now w) = audioCtx w"
  "mode (state (skipSession now w)) = mode (nextMode (state w))"
  "cycleCount (state (skipSession now w)) = cycleCount (nextMode (state w))"
  "isRunning (state (skipSession now w)) = auto (config w)"
  "tones (skipSession now w) = tones w"
  using nextMode_cong [of "(state w)\<lparr>isRunning := False\<rparr>" "state w"]
  by (simp_all add: skipSession_def completeSession_tones)

lemma nextMode_WORK:
  "mode s = WORK \<Longrightarrow>
   mode (nextMode s) = (if jsRem (cycleCount s) 4 = 0 \<and> 3 \<le> cycleCount s then LONG else SHORT)"
  "mode s = WORK \<Longrightarrow> cycleCount (nextMode s) = cycleCount s"
  by (simp_all add: nextMode_def)

lemma nextMode_SHORT:
  "mode s = SHORT \<Longrightarrow> mode (nextMode s) = WORK"
  "mode s = SHORT \<Longrightarrow> cycleCount (nextMode s) = cycleCount s + 1"
  by (simp_all add: nextMode_def)

lemma nextMode_LONG:
  "mode s = LONG \<Longrightarrow> mode (nextMode s) = WORK"
  "mode s = LONG \<Longrightarrow> cycleCount (nextMode s) = 1"
  by (simp_all add: nextMode_def)

lemma init_fields:
  "mode (state (init ps)) = WORK" "cycleCount (state (init ps)) = 1"
  "\<not> isRunning (state (init ps))" "frames (init ps) = []" "tones (init ps) = []"
  "\<not> audioCtx (init ps)" "config (init ps) = parseUrlParams ps DEFAULTS"
  "timeRemaining (state (init ps)) = work (parseUrlParams ps DEFAULTS) * 60"
  by (simp_all add: init_def resetCycle_def Let_def loadedPage_def modeDuration_def)

lemmas parseUrlParams_defs =
  parseUrlParams_def getPositiveIntParam_def params_get_def toStringOrNull_def parseInt_def
  isWhiteSpace_def isRadixDigit_def digitVal_def radixValue_def

lemma parseUrlParams_Nil:
  "parseUrlParams [] DEFAULTS =
     \<lparr>work = 25, short = 5, long = 15, auto = False, sound = ''bell''\<rparr>"
  by (simp add: parseUrlParams_defs DEFAULTS_def)

lemma startTimer_ticking:
  "\<not> isRunning (state w) \<Longrightarrow> frames w = [] \<Longrightarrow> ticking (startTimer now w) now"
  by (simp add: startTimer_def requestAnimationFrame_def Let_def ticking_def)

lemma clickStart_fields [simp]:
  "config (clickStart now w) = config w" "tones (clickStart now w) = tones w"
  "mode (state (clickStart now w)) = mode (state w)"
  "cycleCount (state (clickStart now w)) = cycleCount (state w)"
  "timeRemaining (state (clickStart now w)) = timeRemaining (state w)"
  "isRunning (state (clickStart now w)) = True"
  "audioCtx (clickStart now w) = True"
  by (auto simp add: clickStart_def initAudio_def)

lemma clickStart_ticking:
  "\<not> isRunning (state w) \<Longrightarrow> frames w = [] \<Longrightarrow> ticking (clickStart now w) now"
  by (simp add: clickStart_def initAudio_def startTimer_ticking)

subsection \<open>Frames on a stopped timer\<close>

text \<open>Frames that find the timer stopped change nothing but the list of requests.\<close>

lemma runCallbacks_not_running:
  "\<not> isRunning (state w) \<Longrightarrow>
   state (runCallbacks t now hs w) = state w \<and> config (runCallbacks t now hs w) = config w \<and>
   dom (runCallbacks t now hs w) = dom w \<and> tones (runCallbacks t now hs w) = tones w \<and>
   audioCtx (runCallbacks t now hs w) = audioCtx w \<and>
   nextHandle (runCallbacks t now hs w) = nextHandle w"
proof (induction hs arbitrary: w)
  case Nil
  show ?case by simp
next
  case (Cons h hs)
  show ?case
  proof (cases "map_of (frames w) h")
    case None
    with Cons show ?thesis by simp
  next
    case (Some lt)
    have n: "\<not> isRunning (state (cancelAnimationFrame h w))"
      using Cons.prems by (simp add: cancelAnimationFrame_def)
    from Cons.IH [OF n] show ?thesis
      using Some n by (simp add: loop_not_running) (simp add: cancelAnimationFrame_def)
  qed
qed

lemma frames_not_running:
  "\<not> isRunning (state w) \<Longrightarrow>
   state (run (frameEvents fs) w) = state w \<and> config (run (frameEvents fs) w) = config w \<and>
   dom (run (frameEvents fs) w) = dom w \<and> tones (run (frameEvents fs) w) = tones w \<and>
   audioCtx (run (frameEvents fs) w) = audioCtx w"
proof (induction fs arbitrary: w)
  case Nil
  show ?case by simp
next
  case (Cons f fs)
  note s = runCallbacks_not_running [OF Cons.prems, of "fst f" "snd f" "map fst (frames w)"]
  have "\<not> isRunning (state (animationFrame (fst f) (snd f) w))"
    using Cons.prems s by (simp add: animationFrame_def)
  from Cons.IH [OF this] show ?case
    using s by (simp add: animationFrame_def)
qed

subsection \<open>A session left to run\<close>

lemma map_fst_same [simp]:
  "map fst (map (\<lambda>t. (t, t)) ts) = ts" "map (fst \<circ> (\<lambda>t. (t, t))) ts = ts"
  by (simp_all add: comp_def)

lemma pauseTimer_frames:
  "frames (pauseTimer w) =
     (case timerInterval (state w) of
        None \<Rightarrow> frames w
      | Some h \<Rightarrow> if h \<noteq> 0 then filter (\<lambda>f. fst f \<noteq> h) (frames w) else frames w)"
  by (simp add: pauseTimer_def cancelAnimationFrame_def Let_def split: option.splits)

lemma completeSession_ticking:
  "frames w = [] \<Longrightarrow> auto (config w) \<Longrightarrow> ticking (completeSession now skipped w) now"
  by (simp add: completeSession_def Let_def startTimer_ticking pauseTimer_frames playSound_def
      split: option.splits)

lemma skipSession_ticking:
  "frames w = [] \<Longrightarrow> auto (config w) \<Longrightarrow> ticking (skipSession now w) now"
  by (simp add: skipSession_def completeSession_ticking pauseTimer_frames split: option.splits)

text \<open>A session that is left to run, with a frame every second, runs out at the frame that
  takes its last second, and is completed there as not skipped.\<close>

lemma session_runs_out:
  assumes t: "ticking w lt" and r: "timeRemaining (state w) = int (Suc n)"
  defines "w' \<equiv> run (frameEvents (map (\<lambda>t. (t, t)) (everySecond lt (Suc n)))) w"
  shows "mode (state w') = mode (nextMode (state w))"
    and "cycleCount (state w') = cycleCount (nextMode (state w))"
    and "timeRemaining (state w') = modeDuration (config w) (mode (nextMode (state w)))"
    and "isRunning (state w') = auto (config w)"
    and "config w' = config w"
    and "tones w' = tones w @ (if sound (config w) \<noteq> ''none'' \<and> audioCtx w
                               then [if sound (config w) = ''bell'' then Bell else Chime] else [])"
proof -
  define u where "u = run (frameEvents (map (\<lambda>t. (t, t)) (everySecond lt n))) w"
  have a: "int (accounted lt (map fst (map (\<lambda>t. (t, t)) (everySecond lt n)))) < timeRemaining (state w)"
    by (simp add: accounted_everySecond r)
  note c = frames_countdown [OF t a, folded u_def]
  from c have ut: "ticking u (lt + 1000 * int n)"
    and ur: "timeRemaining (state u) \<le> 1"
    and um: "mode (state u) = mode (state w)" and uc: "cycleCount (state u) = cycleCount (state w)"
    and ucfg: "config u = config w" and uto: "tones u = tones w" and ua: "audioCtx u = audioCtx w"
    by (simp_all add: accounted_everySecond lastAccounted_everySecond r)
  have d: "1000 \<le> (lt + 1000 * int (Suc n)) - (lt + 1000 * int n)"
    by simp
  have w': "w' = completeSession (lt + 1000 * int (Suc n)) False
      (u\<lparr>frames := [], state := (state u)\<lparr>timeRemaining := timeRemaining (state u) - 1\<rparr>\<rparr>)"
    unfolding w'_def everySecond_snoc
    using ticking_frame_complete [OF ut d ur, of "lt + 1000 * int (Suc n)"]
    by (simp add: run_append u_def del: everySecond.simps)
  have n: "mode (nextMode ((state u)\<lparr>timeRemaining := timeRemaining (state u) - 1\<rparr>)) =
      mode (nextMode (state w))"
    "cycleCount (nextMode ((state u)\<lparr>timeRemaining := timeRemaining (state u) - 1\<rparr>)) =
      cycleCount (nextMode (state w))"
    using nextMode_cong [of "(state u)\<lparr>timeRemaining := timeRemaining (state u) - 1\<rparr>" "state w"]
      um uc
    by simp_all
  show "mode (state w') = mode (nextMode (state w))"
    and "cycleCount (state w') = cycleCount (nextMode (state w))"
    and "timeRemaining (state w') = modeDuration (config w) (mode (nextMode (state w)))"
    and "isRunning (state w') = auto (config w)"
    and "config w' = config w"
    and "tones w' = tones w @ (if sound (config w) \<noteq> ''none'' \<and> audioCtx w
                               then [if sound (config w) = ''bell'' then Bell else Chime] else [])"
    by (simp_all add: w' n ucfg uto ua completeSession_tones)
qed

subsection \<open>Reading the parameters\<close>

lemma parseInt_null: "parseInt ''null'' = None"
  by (simp add: parseInt_def isWhiteSpace_def isRadixDigit_def digitVal_def)

lemma parseInt_minus:
  "dropWhile isWhiteSpace v = CHR ''-'' # r \<Longrightarrow>
   (case parseInt v of None \<Rightarrow> True | Some n \<Rightarrow> n \<le> 0)"
  by (simp add: parseInt_def Let_def)

lemma getPositiveIntParam_default:
  "(case params_get ps key of None \<Rightarrow> True
    | Some v \<Rightarrow> (case parseInt v of None \<Rightarrow> True | Some n \<Rightarrow> n \<le> 0)) \<Longrightarrow>
   getPositiveIntParam ps key d = d"
  by (cases "params_get ps key")
    (auto simp add: getPositiveIntParam_def toStringOrNull_def parseInt_null split: option.splits)

lemma parseUrlParams_durations:
  "work (parseUrlParams ps c) = getPositiveIntParam ps ''work'' 25"
  "short (parseUrlParams ps c) = getPositiveIntParam ps ''short'' 5"
  "long (parseUrlParams ps c) = getPositiveIntParam ps ''long'' 15"
  by (simp_all add: parseUrlParams_def DEFAULTS_def Let_def split: option.splits)

lemma parseUrlParams_sound:
  "sound (parseUrlParams ps c) =
     (case params_get ps ''sound'' of None \<Rightarrow> sound c | Some v \<Rightarrow> if v \<noteq> [] then v else sound c)"
  by (simp add: parseUrlParams_def Let_def split: option.splits)

subsection \<open>Frames at a regular pace\<close>

text \<open>At a pace of \<open>d\<close> milliseconds, with \<open>k\<close> the least number of frames that span 1000
  milliseconds, every \<open>k\<close>-th frame counts: \<open>j\<close> is the number of frames since the last one
  that counted.\<close>

lemma accounted_everyMs:
  assumes k: "0 < k" "int (k - 1) * d < 1000" "1000 \<le> int k * d"
    and j: "j < k" "t - lt = int j * d"
  shows "accounted lt (everyMs d t n) = (n + j) div k"
  using j
proof (induction n arbitrary: t j lt)
  case 0
  then show ?case by simp
next
  case (Suc n)
  have d: "0 < d"
  proof (rule ccontr)
    assume "\<not> 0 < d"
    then have "int k * d \<le> 0"
      by (simp add: mult_nonneg_nonpos)
    with k(3) show False by simp
  qed
  show ?case
  proof (cases "Suc j = k")
    case True
    then have "int k = int j + 1"
      by linarith
    then have "int k * d = int j * d + d"
      by (simp add: algebra_simps)
    then have "1000 \<le> t + d - lt"
      using k(3) Suc.prems(2) by linarith
    moreover have "accounted (t + d) (everyMs d (t + d) n) = (n + 0) div k"
      by (rule Suc.IH) (use k in simp_all)
    moreover have "(Suc n + j) div k = Suc (n div k)"
    proof -
      have e: "Suc n + j = n + k"
        using True by linarith
      have "(n + k) div k = Suc (n div k)"
        using k(1) by (simp add: div_add_self2)
      then show ?thesis
        by (simp only: e)
    qed
    ultimately show ?thesis
      by simp
  next
    case False
    with Suc.prems have lt: "Suc j < k" by simp
    have e: "t + d - lt = int (Suc j) * d"
      using Suc.prems(2) by (simp add: algebra_simps)
    moreover have "int (Suc j) * d \<le> int (k - 1) * d"
      using lt d by (intro mult_right_mono) simp_all
    ultimately have "\<not> 1000 \<le> t + d - lt"
      using k(2) by simp
    moreover have "accounted lt (everyMs d (t + d) n) = (n + Suc j) div k"
      by (rule Suc.IH) (use lt e in simp_all)
    ultimately show ?thesis
      by simp
  qed
qed

text \<open>With auto-advance, the session that follows the one that ran out is ticking: its frame
  request is pending, with the clock reading of the last frame as \<open>lastTime\<close>.\<close>

lemma session_runs_out_ticking:
  assumes t: "ticking w lt" and r: "timeRemaining (state w) = int (Suc n)"
    and a: "auto (config w)"
  shows "ticking (run (frameEvents (map (\<lambda>t. (t, t)) (everySecond lt (Suc n)))) w)
           (lt + 1000 * int (Suc n))"
proof -
  define u where "u = run (frameEvents (map (\<lambda>t. (t, t)) (everySecond lt n))) w"
  have b: "int (accounted lt (map fst (map (\<lambda>t. (t, t)) (everySecond lt n)))) < timeRemaining (state w)"
    by (simp add: accounted_everySecond r)
  note c = frames_countdown [OF t b, folded u_def]
  from c have ut: "ticking u (lt + 1000 * int n)"
    and ur: "timeRemaining (state u) \<le> 1" and ucfg: "config u = config w"
    by (simp_all add: accounted_everySecond lastAccounted_everySecond r)
  have d: "1000 \<le> (lt + 1000 * int (Suc n)) - (lt + 1000 * int n)"
    by simp
  have e: "run (frameEvents (map (\<lambda>t. (t, t)) (everySecond lt (Suc n)))) w =
      completeSession (lt + 1000 * int (Suc n)) False
        (u\<lparr>frames := [], state := (state u)\<lparr>timeRemaining := timeRemaining (state u) - 1\<rparr>\<rparr>)"
    unfolding everySecond_snoc
    using ticking_frame_complete [OF ut d ur, of "lt + 1000 * int (Suc n)"]
    by (simp add: run_append u_def del: everySecond.simps)
  show ?thesis
    unfolding e by (rule completeSession_ticking) (simp_all add: ucfg a)
qed

lemma isRadixDigit_10_plain:
  "isRadixDigit 10 c \<Longrightarrow>
   \<not> isWhiteSpace c \<and> c \<noteq> CHR ''+'' \<and> c \<noteq> CHR ''-'' \<and> c \<noteq> CHR ''x'' \<and> c \<noteq> CHR ''X''"
  by (auto simp add: isRadixDigit_def digitVal_def isWhiteSpace_def Let_def split: if_splits)

text \<open>A value that is a decimal numeral and nothing else is read as the number it writes.\<close>

lemma parseInt_decimal:
  assumes "v \<noteq> []" "list_all (isRadixDigit 10) v"
  shows "parseInt v = Some (int (radixValue 10 v))"
proof -
  from assms obtain c r where v: "v = c # r" and c: "isRadixDigit 10 c"
    and r: "list_all (isRadixDigit 10) r"
    by (cases v) auto
  note p = isRadixDigit_10_plain [OF c]
  have x: "take 2 v \<noteq> ''0x''" "take 2 v \<noteq> ''0X''"
  proof -
    show "take 2 v \<noteq> ''0x''"
    proof (cases r)
      case Nil
      with v show ?thesis by simp
    next
      case (Cons c' r')
      with r have "isRadixDigit 10 c'" by simp
      from isRadixDigit_10_plain [OF this] v Cons show ?thesis by simp
    qed
    show "take 2 v \<noteq> ''0X''"
    proof (cases r)
      case Nil
      with v show ?thesis by simp
    next
      case (Cons c' r')
      with r have "isRadixDigit 10 c'" by simp
      from isRadixDigit_10_plain [OF this] v Cons show ?thesis by simp
    qed
  qed
  have t: "takeWhile (isRadixDigit 10) v = v"
    using assms(2) by (simp add: list_all_iff)
  have d: "dropWhile isWhiteSpace v = v"
    using v p by simp
  have h: "hd v \<noteq> CHR ''-''" "hd v \<noteq> CHR ''+''"
    using v p by simp_all
  show ?thesis
    unfolding parseInt_def Let_def d
    using h x assms(1) by (simp add: t)
qed

subsection \<open>Pages at rest\<close>

lemma render_dom_eq:
  "mode (state w) = mode (state w') \<Longrightarrow> timeRemaining (state w) = timeRemaining (state w') \<Longrightarrow>
   isRunning (state w) = isRunning (state w') \<Longrightarrow> cycleCount (state w) = cycleCount (state w') \<Longrightarrow>
   dom (render w) = dom (render w')"
  by (simp add: render_def Let_def)

lemma settled_cancellable: "settled w \<Longrightarrow> cancellable w"
  by (auto simp add: settled_def cancellable_def split: if_splits option.splits)

lemma cancellable_pause_frames: "cancellable w \<Longrightarrow> frames (pauseTimer w) = []"
  by (cases "frames w") (auto simp add: cancellable_def pauseTimer_frames split: option.splits)

lemma settled_pauseTimer: "cancellable w \<Longrightarrow> settled (pauseTimer w)"
proof -
  assume c: "cancellable w"
  have "dom (pauseTimer w) = dom (render (pauseTimer w))"
    by (simp add: pauseTimer_def Let_def)
  with cancellable_pause_frames [OF c] c show ?thesis
    by (simp add: settled_def cancellable_def)
qed

lemma settled_startTimer:
  assumes "\<not> isRunning (state w)" "frames w = []" "0 < nextHandle w"
  shows "settled (startTimer now w)"
  using assms by (simp add: settled_def startTimer_def requestAnimationFrame_def Let_def)

lemma settled_completeSession:
  assumes c: "cancellable w"
  shows "settled (completeSession now skipped w)"
proof -
  define u where "u = setModeTime ((if \<not> skipped \<and> sound (config w) \<noteq> ''none''
      then playSound (sound (config w))
        (render ((pauseTimer w)\<lparr>state := (state (pauseTimer w))\<lparr>timeRemaining := 0\<rparr>\<rparr>))
      else render ((pauseTimer w)\<lparr>state := (state (pauseTimer w))\<lparr>timeRemaining := 0\<rparr>\<rparr>))
      \<lparr>state := nextMode ((state w)\<lparr>isRunning := False, timeRemaining := 0\<rparr>)\<rparr>)"
  have e: "completeSession now skipped w = (if auto (config w) then startTimer now u else render u)"
    by (simp add: completeSession_def Let_def u_def)
  have f: "frames u = []" and n: "0 < nextHandle u" and r: "\<not> isRunning (state u)"
    using cancellable_pause_frames [OF c] c
    by (simp_all add: u_def cancellable_def)
  show ?thesis
  proof (cases "auto (config w)")
    case True
    with e settled_startTimer [OF r f n] show ?thesis by simp
  next
    case False
    with e f n r show ?thesis by (simp add: settled_def)
  qed
qed

lemma settled_init: "settled (init ps)"
  by (simp add: settled_def init_def resetCycle_def Let_def loadedPage_def)

lemma settled_clickStart: "settled w \<Longrightarrow> settled (clickStart now w)"
proof (cases "isRunning (state w)")
  case True
  assume s: "settled w"
  have d: "dom (render (w\<lparr>audioCtx := True\<rparr>)) = dom (render w)"
    by (rule render_dom_eq) simp_all
  from True s d show ?thesis
    by (simp add: clickStart_def initAudio_def startTimer_def settled_def split: option.splits)
next
  case False
  assume s: "settled w"
  from s False have "frames (initAudio w) = []" "0 < nextHandle (initAudio w)"
    "\<not> isRunning (state (initAudio w))"
    by (simp_all add: settled_def initAudio_def)
  from settled_startTimer [OF this(3,1,2)] show ?thesis
    by (simp add: clickStart_def)
qed

lemma settled_animationFrame:
  assumes s: "settled w"
  shows "settled (animationFrame t now w)"
proof (cases "isRunning (state w)")
  case False
  with s have "frames w = []" by (simp add: settled_def)
  with s show ?thesis by (simp add: animationFrame_empty)
next
  case True
  with s obtain h lt where f: "frames w = [(h, lt)]" and hp: "0 < h" and n: "0 < nextHandle w"
    and d: "dom w = dom (render w)"
    by (cases "frames w") (auto simp add: settled_def split: option.splits)
  define u where "u = w\<lparr>frames := []\<rparr>"
  have e: "animationFrame t now w = loop lt t now u"
    unfolding u_def using f by (rule animationFrame_single)
  have ru: "isRunning (state u)" and fu: "frames u = []" and nu: "0 < nextHandle u"
    and du: "dom u = dom (render u)"
    using True n d by (simp_all add: u_def render_def Let_def)
  show ?thesis
  proof (cases "1000 \<le> t - lt")
    case False
    then have "t - lt < 1000" by simp
    note l = loop_wait [OF ru this, of now]
    have "dom (render (loop lt t now u)) = dom (render u)"
      by (rule render_dom_eq) (simp_all add: l)
    with ru fu nu du show ?thesis
      by (simp add: e settled_def) (simp add: l)
  next
    case True
    show ?thesis
    proof (cases "1 < timeRemaining (state u)")
      case True
      note l = loop_tick [OF ru \<open>1000 \<le> t - lt\<close> True, of now]
      have "dom (render (loop lt t now u)) =
          dom (render (u\<lparr>state := (state u)\<lparr>timeRemaining := timeRemaining (state u) - 1\<rparr>\<rparr>))"
        by (rule render_dom_eq) (simp_all add: l)
      with ru fu nu show ?thesis
        by (simp add: e settled_def) (simp add: l)
    next
      case False
      then have "timeRemaining (state u) \<le> 1" by simp
      note l = loop_complete [OF ru \<open>1000 \<le> t - lt\<close> this, of now]
      have "cancellable (u\<lparr>state := (state u)\<lparr>timeRemaining := timeRemaining (state u) - 1\<rparr>\<rparr>)"
        using fu nu by (simp add: cancellable_def)
      from settled_completeSession [OF this] show ?thesis
        by (simp add: e l)
    qed
  qed
qed

lemma settled_step: "settled w \<Longrightarrow> settled (step e w)"
proof (cases e)
  case (Start now)
  assume "settled w"
  with Start show ?thesis by (simp add: settled_clickStart)
next
  case Pause
  assume "settled w"
  with Pause show ?thesis
    by (simp add: clickPause_def settled_pauseTimer settled_cancellable)
next
  case (Skip now)
  assume "settled w"
  then have "settled (pauseTimer w)"
    by (simp add: settled_pauseTimer settled_cancellable)
  then have "settled (completeSession now True (pauseTimer w))"
    by (simp add: settled_completeSession settled_cancellable)
  with Skip show ?thesis
    by (simp add: clickReset_def skipSession_def)
next
  case (Frame t now)
  assume "settled w"
  with Frame show ?thesis by (simp add: settled_animationFrame)
next
  case (Complete now skipped)
  assume "settled w"
  with Complete show ?thesis
    by (simp add: settled_completeSession settled_cancellable)
qed

lemma settled_run: "settled w \<Longrightarrow> settled (run es w)"
  by (induction es arbitrary: w) (simp_all add: settled_step)

text \<open>Every page that \<open>init\<close> and the events after it produce is at rest.\<close>

lemma init_run_settled: "settled (run es (init ps))"
  by (simp add: settled_run settled_init)

lemma init_run_cycleDisplay:
  "cycleDisplay (dom (run es (init ps))) =
     ''Cycle '' @ numToString (cycleCount (state (run es (init ps)))) @ ''/3''"
proof -
  have "dom (run es (init ps)) = dom (render (run es (init ps)))"
    using init_run_settled [of es ps] by (simp add: settled_def)
  then have "cycleDisplay (dom (run es (init ps))) = cycleDisplay (dom (render (run es (init ps))))"
    by simp
  then show ?thesis
    by (simp add: render_def Let_def)
qed

text \<open>On a page at rest whose timer is stopped, \<open>pauseTimer\<close> changes nothing at all.\<close>

lemma settled_pause_noop:
  assumes s: "settled w" and r: "\<not> isRunning (state w)"
  shows "pauseTimer w = w"
proof -
  from s r have f: "frames w = []" and d: "dom (render w) = dom w"
    by (simp_all add: settled_def)
  have st: "(state w)\<lparr>isRunning := False\<rparr> = state w"
    using r by (cases "state w") simp
  have rw: "render w = w"
    using d by (simp add: render_def Let_def)
  have fw: "w\<lparr>frames := []\<rparr> = w"
    by (subst f [symmetric]) simp
  have sw: "w\<lparr>state := state w\<rparr> = w"
    by simp
  show ?thesis
    by (simp add: pauseTimer_def cancelAnimationFrame_def Let_def f st sw fw rw
        split: option.splits)
qed

subsection \<open>Positions in the cycle\<close>

lemma jsRem_4: "1 \<le> c \<Longrightarrow> c \<le> 4 \<Longrightarrow> jsRem c 4 = 0 \<longleftrightarrow> c = 4"
  by (simp add: jsRem_def) presburger

lemma cyclePosition_nextMode: "cyclePosition s \<Longrightarrow> cyclePosition (nextMode s)"
  by (auto simp add: cyclePosition_def nextMode_def jsRem_4 split: mode.splits)

lemma cyclePosition_cong:
  "mode s = mode s' \<Longrightarrow> cycleCount s = cycleCount s' \<Longrightarrow> cyclePosition s = cyclePosition s'"
  by (simp add: cyclePosition_def split: mode.splits)

lemma cyclePosition_completeSession:
  "cyclePosition (state w) \<Longrightarrow> cyclePosition (state (completeSession now skipped w))"
  using cyclePosition_cong [of "state (completeSession now skipped w)" "nextMode (state w)"]
  by (simp add: cyclePosition_nextMode)

lemma cyclePosition_loop:
  "cyclePosition (state w) \<Longrightarrow> cyclePosition (state (loop lt t now w))"
proof -
  assume c: "cyclePosition (state w)"
  have "cyclePosition (state (completeSession now False
      (w\<lparr>state := (state w)\<lparr>timeRemaining := timeRemaining (state w) - 1\<rparr>\<rparr>)))"
    by (rule cyclePosition_completeSession)
      (use c in \<open>simp add: cyclePosition_def split: mode.splits\<close>)
  moreover have "cyclePosition ((state w)\<lparr>timerInterval := x\<rparr>)"
    "cyclePosition ((state w)\<lparr>timeRemaining := y, timerInterval := x\<rparr>)" for x y
    using c by (simp_all add: cyclePosition_def split: mode.splits)
  ultimately show ?thesis
    using c by (simp add: loop_def requestAnimationFrame_def Let_def)
qed

lemma cyclePosition_runCallbacks:
  "cyclePosition (state w) \<Longrightarrow> cyclePosition (state (runCallbacks t now hs w))"
proof (induction hs arbitrary: w)
  case Nil
  then show ?case by simp
next
  case (Cons h hs)
  show ?case
  proof (cases "map_of (frames w) h")
    case None
    with Cons show ?thesis by simp
  next
    case (Some lt)
    have "cyclePosition (state (cancelAnimationFrame h w))"
      using Cons.prems by (simp add: cancelAnimationFrame_def)
    then have "cyclePosition (state (loop lt t now (cancelAnimationFrame h w)))"
      by (rule cyclePosition_loop)
    from Cons.IH [OF this] Some show ?thesis by simp
  qed
qed

lemma cyclePosition_step: "cyclePosition (state w) \<Longrightarrow> cyclePosition (state (step e w))"
proof (cases e)
  case (Start now)
  assume "cyclePosition (state w)"
  with Start show ?thesis
    using cyclePosition_cong [of "state (clickStart now w)" "state w"] by simp
next
  case Pause
  assume "cyclePosition (state w)"
  with Pause show ?thesis
    using cyclePosition_cong [of "(state w)\<lparr>isRunning := False\<rparr>" "state w"]
    by (simp add: clickPause_def)
next
  case (Skip now)
  assume "cyclePosition (state w)"
  then have "cyclePosition (state (pauseTimer w))"
    using cyclePosition_cong [of "(state w)\<lparr>isRunning := False\<rparr>" "state w"] by simp
  then have "cyclePosition (state (completeSession now True (pauseTimer w)))"
    by (rule cyclePosition_completeSession)
  with Skip show ?thesis by (simp add: clickReset_def skipSession_def)
next
  case (Frame t now)
  assume "cyclePosition (state w)"
  with Frame show ?thesis by (simp add: animationFrame_def cyclePosition_runCallbacks)
next
  case (Complete now skipped)
  assume "cyclePosition (state w)"
  with Complete show ?thesis by (simp add: cyclePosition_completeSession)
qed

lemma cyclePosition_run: "cyclePosition (state w) \<Longrightarrow> cyclePosition (state (run es w))"
  by (induction es arbitrary: w) (simp_all add: cyclePosition_step)

text \<open>What the code keeps of the cycle counter, on every page that \<open>init\<close> and the events
  after it produce: it stays between 1 and 4.\<close>

lemma init_run_cycleCount:
  "1 \<le> cycleCount (state (run es (init ps))) \<and> cycleCount (state (run es (init ps))) \<le> 4"
proof -
  have "cyclePosition (state (init ps))"
    by (simp add: cyclePosition_def init_fields)
  then have "cyclePosition (state (run es (init ps)))"
    by (rule cyclePosition_run)
  then show ?thesis
    by (auto simp add: cyclePosition_def split: mode.splits)
qed

section \<open>The properties\<close>

text \<open>
  C1 has the third completed work session lead to the long break. The code does not: from
  the page as \<open>init\<close> leaves it with no parameters (auto-advance off), completing the
  session again and again, not skipped, these are the mode and the cycle counter before
  any completion and after each of the first eight. The third completion of a work session
  (the fifth completion) leads to \<open>SHORT\<close> with the counter at 3, a fourth work session
  follows with the counter at 4, and only its completion leads to \<open>LONG\<close>; the counter is
  back at 1 after the long break.
\<close>

theorem third_work_completion_goes_short:
  "map (\<lambda>w. (mode (state w), cycleCount (state w)))
     [init [],
      run [Complete 0 False] (init []),
      run [Complete 0 False, Complete 0 False] (init []),
      run [Complete 0 False, Complete 0 False, Complete 0 False] (init []),
      run [Complete 0 False, Complete 0 False, Complete 0 False, Complete 0 False] (init []),
      run [Complete 0 False, Complete 0 False, Complete 0 False, Complete 0 False,
           Complete 0 False] (init []),
      run [Complete 0 False, Complete 0 False, Complete 0 False, Complete 0 False,
           Complete 0 False, Complete 0 False] (init []),
      run [Complete 0 False, Complete 0 False, Complete 0 False, Complete 0 False,
           Complete 0 False, Complete 0 False, Complete 0 False] (init []),
      run [Complete 0 False, Complete 0 False, Complete 0 False, Complete 0 False,
           Complete 0 False, Complete 0 False, Complete 0 False, Complete 0 False] (init [])] =
   [(WORK, 1), (SHORT, 1), (WORK, 2), (SHORT, 2), (WORK, 3), (SHORT, 3), (WORK, 4), (LONG, 4),
    (WORK, 1)]"
  by (simp add: init_fields nextMode_WORK nextMode_SHORT nextMode_LONG jsRem_def)

text \<open>
  C2 keeps the cycle counter between 1 and 3. The code does not: six clicks on the skip
  button after \<open>init\<close> with no parameters leave the page in a work session with the cycle
  counter at 4, which the page shows as \<open>Cycle 4/3\<close>.
\<close>

theorem cycle_counter_reaches_four:
  "cycleCount (state (run [Skip 0, Skip 0, Skip 0, Skip 0, Skip 0, Skip 0] (init []))) = 4 \<and>
   mode (state (run [Skip 0, Skip 0, Skip 0, Skip 0, Skip 0, Skip 0] (init []))) = WORK \<and>
   cycleDisplay (dom (run [Skip 0, Skip 0, Skip 0, Skip 0, Skip 0, Skip 0] (init []))) = ''Cycle 4/3''"
proof -
  let ?w = "run [Skip 0, Skip 0, Skip 0, Skip 0, Skip 0, Skip 0] (init [])"
  have c: "cycleCount (state ?w) = 4" and m: "mode (state ?w) = WORK"
    by (simp_all add: clickReset_def init_fields nextMode_WORK nextMode_SHORT nextMode_LONG
        jsRem_def)
  have "numToString 4 = ''4''"
    by code_simp
  then have "cycleDisplay (dom ?w) = ''Cycle 4/3''"
    using init_run_cycleDisplay [of "[Skip 0, Skip 0, Skip 0, Skip 0, Skip 0, Skip 0]" "[]"]
    by (simp only: c) simp
  with c m show ?thesis
    by blast
qed

text \<open>
  C3 has the remaining time decrease by the whole number of seconds that have elapsed, the
  fraction being carried over. The code does not: started at time 0 with 1500 seconds to
  go, the timer is still running the same work session and has
  \<^item> 1498 seconds to go after frames at 1500 ms and 3000 ms (3 seconds elapsed, 2 counted);
  \<^item> 1499 seconds to go after a single frame at 5000 ms (5 seconds elapsed, 1 counted);
  \<^item> 1498 seconds to go after 188 frames 16 ms apart, the last at 3008 ms (3 seconds
    elapsed, 2 counted).
\<close>

theorem tick_drops_remainder:
  "timeRemaining (state (clickStart 0 (init []))) = 1500 \<and>
   timeRemaining (state (run (frameEvents [(1500, 1500), (3000, 3000)]) (clickStart 0 (init [])))) = 1498 \<and>
   mode (state (run (frameEvents [(1500, 1500), (3000, 3000)]) (clickStart 0 (init [])))) = WORK \<and>
   isRunning (state (run (frameEvents [(1500, 1500), (3000, 3000)]) (clickStart 0 (init [])))) \<and>
   (1500 + 1500) div 1000 = (3::int) \<and>
   timeRemaining (state (run (frameEvents [(5000, 5000)]) (clickStart 0 (init [])))) = 1499 \<and>
   mode (state (run (frameEvents [(5000, 5000)]) (clickStart 0 (init [])))) = WORK \<and>
   isRunning (state (run (frameEvents [(5000, 5000)]) (clickStart 0 (init [])))) \<and>
   timeRemaining (state (run (frameEvents (map (\<lambda>t. (t, t)) (everyMs 16 0 188)))
     (clickStart 0 (init [])))) = 1498 \<and>
   mode (state (run (frameEvents (map (\<lambda>t. (t, t)) (everyMs 16 0 188)))
     (clickStart 0 (init [])))) = WORK \<and>
   isRunning (state (run (frameEvents (map (\<lambda>t. (t, t)) (everyMs 16 0 188)))
     (clickStart 0 (init [])))) \<and>
   (16 * 188) div 1000 = (3::int)"
proof -
  have t: "ticking (clickStart 0 (init [])) 0"
    by (simp add: clickStart_ticking init_fields)
  have e: "accounted 0 (everyMs 16 0 188) = 2"
    using accounted_everyMs [of 63 16 0 0 0 188] by simp
  have a: "int (accounted 0 (map fst [(1500::int, 1500::int), (3000, 3000)])) <
      timeRemaining (state (clickStart 0 (init [])))"
    and b: "int (accounted 0 (map fst [(5000::int, 5000::int)])) <
      timeRemaining (state (clickStart 0 (init [])))"
    and c: "int (accounted 0 (map fst (map (\<lambda>t. (t, t)) (everyMs 16 0 188)))) <
      timeRemaining (state (clickStart 0 (init [])))"
    by (simp_all add: init_fields parseUrlParams_Nil e del: everyMs.simps)
  from frames_countdown [OF t a] frames_countdown [OF t b] frames_countdown [OF t c]
  show ?thesis
    by (simp add: init_fields parseUrlParams_Nil ticking_def e del: everyMs.simps)
qed

text \<open>
  C4 has the work session of one minute followed by the short break after 60 elapsed
  seconds of ticks. The code does so only when the frames fall on the seconds: with the
  parameters work=1, short=1, long=1, auto=true, sound=none and a click on Start at any
  time \<open>t0\<close>, after 60 seconds of frames the page is
  \<^item> still in the work session with 1 second to go when the frames are 16 ms apart;
  \<^item> still in the work session with 20 seconds to go when they are 1500 ms apart;
  \<^item> still in the work session with 59 seconds to go when there is one frame, at the end;
  \<^item> in the short break with 60 seconds to go, the cycle counter at 1, no tone played, and
    running with its frame request pending, when the frames are exactly one second apart.
\<close>

theorem sixty_seconds_of_frames:
  "let ps = [(''work'', ''1''), (''short'', ''1''), (''long'', ''1''), (''auto'', ''true''),
             (''sound'', ''none'')];
       after = (\<lambda>ts. run (Start t0 # frameEvents (map (\<lambda>t. (t, t)) ts)) (init ps))
   in (mode (state (after (everyMs 16 t0 3750))) = WORK \<and>
       timeRemaining (state (after (everyMs 16 t0 3750))) = 1 \<and>
       isRunning (state (after (everyMs 16 t0 3750)))) \<and>
      (mode (state (after (everyMs 1500 t0 40))) = WORK \<and>
       timeRemaining (state (after (everyMs 1500 t0 40))) = 20 \<and>
       isRunning (state (after (everyMs 1500 t0 40)))) \<and>
      (mode (state (after [t0 + 60000])) = WORK \<and>
       timeRemaining (state (after [t0 + 60000])) = 59 \<and>
       isRunning (state (after [t0 + 60000]))) \<and>
      (mode (state (after (everySecond t0 60))) = SHORT \<and>
       timeRemaining (state (after (everySecond t0 60))) = 60 \<and>
       cycleCount (state (after (everySecond t0 60))) = 1 \<and>
       tones (after (everySecond t0 60)) = [] \<and>
       ticking (after (everySecond t0 60)) (t0 + 60000)) \<and>
      16 * 3750 = (60000::int) \<and> 1500 * 40 = (60000::int)"
proof -
  define w0 where "w0 = clickStart t0 (init [(''work'', ''1''), (''short'', ''1''), (''long'', ''1''),
      (''auto'', ''true''), (''sound'', ''none'')])"
  have c: "parseUrlParams [(''work'', ''1''), (''short'', ''1''), (''long'', ''1''),
      (''auto'', ''true''), (''sound'', ''none'')] DEFAULTS =
      \<lparr>work = 1, short = 1, long = 1, auto = True, sound = ''none''\<rparr>"
    by (simp add: parseUrlParams_defs DEFAULTS_def)
  have t: "ticking w0 t0"
    unfolding w0_def by (simp add: clickStart_ticking init_fields)
  have m: "mode (state w0) = WORK" "cycleCount (state w0) = 1"
    "config w0 = \<lparr>work = 1, short = 1, long = 1, auto = True, sound = ''none''\<rparr>"
    "tones w0 = []" "timeRemaining (state w0) = 60"
    unfolding w0_def by (simp_all add: init_fields c)
  have cd: "mode (state (run (frameEvents (map (\<lambda>t. (t, t)) ts)) w0)) = WORK \<and>
      timeRemaining (state (run (frameEvents (map (\<lambda>t. (t, t)) ts)) w0)) = 60 - int (accounted t0 ts) \<and>
      isRunning (state (run (frameEvents (map (\<lambda>t. (t, t)) ts)) w0))"
    if "accounted t0 ts < 60" for ts
  proof -
    from that have "int (accounted t0 (map fst (map (\<lambda>t. (t, t)) ts))) < timeRemaining (state w0)"
      by (simp add: m)
    from frames_countdown [OF t this] show ?thesis
      by (simp add: m ticking_def)
  qed
  have a16: "accounted t0 (everyMs 16 t0 3750) = 59"
    using accounted_everyMs [of 63 16 0 t0 t0 3750] by simp
  have a1500: "accounted t0 (everyMs 1500 t0 40) = 40"
    using accounted_everyMs [of 1 1500 0 t0 t0 40] by simp
  have a1: "accounted t0 [t0 + 60000] = 1"
    by simp
  have r: "timeRemaining (state w0) = int (Suc 59)"
    by (simp add: m)
  have s: "(60::nat) = Suc 59"
    by simp
  have au: "auto (config w0)"
    by (simp add: m)
  note o = session_runs_out [OF t r] session_runs_out_ticking [OF t r au]
  have sec: "mode (state (run (frameEvents (map (\<lambda>t. (t, t)) (everySecond t0 60))) w0)) = SHORT \<and>
      timeRemaining (state (run (frameEvents (map (\<lambda>t. (t, t)) (everySecond t0 60))) w0)) = 60 \<and>
      cycleCount (state (run (frameEvents (map (\<lambda>t. (t, t)) (everySecond t0 60))) w0)) = 1 \<and>
      tones (run (frameEvents (map (\<lambda>t. (t, t)) (everySecond t0 60))) w0) = [] \<and>
      ticking (run (frameEvents (map (\<lambda>t. (t, t)) (everySecond t0 60))) w0) (t0 + 60000)"
    unfolding s using o m
    by (simp add: nextMode_WORK jsRem_def modeDuration_def del: everySecond.simps)
  from cd [of "everyMs 16 t0 3750"] cd [of "everyMs 1500 t0 40"] cd [of "[t0 + 60000]"] sec
  show ?thesis
    unfolding Let_def
    by (simp add: w0_def [symmetric] a16 a1500 a1 del: everySecond.simps everyMs.simps accounted.simps)
qed

text \<open>
  C5. \<open>skipSession\<close> completes the current session (the mode and the cycle counter move as
  \<open>completeSession\<close> moves them) and starts no oscillator, whatever the mode, the cycle
  position, the configured sound and the audio context. A completion starts an oscillator
  only when it is not a skip and the configured sound is not \<open>none\<close> (and there is an audio
  context), and then exactly one.
\<close>

theorem skip_plays_no_cue:
  "tones (skipSession now w) = tones w \<and>
   mode (state (skipSession now w)) = mode (nextMode (state w)) \<and>
   cycleCount (state (skipSession now w)) = cycleCount (nextMode (state w)) \<and>
   tones (completeSession now skipped w) =
     tones w @ (if \<not> skipped \<and> sound (config w) \<noteq> ''none'' \<and> audioCtx w
                then [if sound (config w) = ''bell'' then Bell else Chime] else [])"
  by (simp add: completeSession_tones)

text \<open>
  C6, as stated, fails: the value \<open>2.5\<close>, which is not a positive integer, gives a work
  duration of 2, and the value \<open>10abc\<close>, which is not a number, gives 10; the default is 25.
\<close>

theorem duration_fallback_counterexample:
  "work (config (init [(''work'', ''2.5'')])) = 2 \<and>
   work (config (init [(''work'', ''10abc'')])) = 10 \<and>
   work DEFAULTS = 25"
  by (simp add: init_fields parseUrlParams_defs DEFAULTS_def)

text \<open>
  C6, amended. The three durations are read by \<open>getPositiveIntParam\<close> under the keys
  \<open>work\<close>, \<open>short\<close> and \<open>long\<close> with the defaults 25, 5 and 15. Under any key and with any
  default, the result is the default when the parameter is absent, when \<open>parseInt\<close> reads
  no integer at the head of its value, when it reads one that is not positive, and
  whenever the value begins, after white space, with a minus sign; so \<open>work=-5\<close> gives 25.
  When \<open>parseInt\<close> reads a positive integer up to \<open>2 ^ 53\<close> at the head of the value, that
  integer is the result; so it is for a value that is a decimal numeral of a positive
  number up to \<open>2 ^ 53\<close> and nothing else.
\<close>

theorem duration_falls_back_to_default:
  "work (parseUrlParams ps c) = getPositiveIntParam ps ''work'' 25 \<and>
   short (parseUrlParams ps c) = getPositiveIntParam ps ''short'' 5 \<and>
   long (parseUrlParams ps c) = getPositiveIntParam ps ''long'' 15 \<and>
   (params_get ps key = None \<longrightarrow> getPositiveIntParam ps key d = d) \<and>
   (params_get ps key = Some v \<and> parseInt v = None \<longrightarrow> getPositiveIntParam ps key d = d) \<and>
   (params_get ps key = Some v \<and> parseInt v = Some n \<and> n \<le> 0 \<longrightarrow>
      getPositiveIntParam ps key d = d) \<and>
   (params_get ps key = Some v \<and> dropWhile isWhiteSpace v = CHR ''-'' # r \<longrightarrow>
      getPositiveIntParam ps key d = d) \<and>
   (params_get ps key = Some v \<and> parseInt v = Some n \<and> 0 < n \<and> n \<le> 2 ^ 53 \<longrightarrow>
      getPositiveIntParam ps key d = n) \<and>
   (params_get ps key = Some v \<and> v \<noteq> [] \<and> list_all (isRadixDigit 10) v \<and>
    0 < radixValue 10 v \<and> radixValue 10 v \<le> 2 ^ 53 \<longrightarrow>
      getPositiveIntParam ps key d = int (radixValue 10 v)) \<and>
   work (config (init [(''work'', ''-5'')])) = 25"
proof -
  have a: "params_get ps key = None \<longrightarrow> getPositiveIntParam ps key d = d"
    and b: "params_get ps key = Some v \<and> parseInt v = None \<longrightarrow> getPositiveIntParam ps key d = d"
    and e: "params_get ps key = Some v \<and> parseInt v = Some n \<and> n \<le> 0 \<longrightarrow>
      getPositiveIntParam ps key d = d"
    by (simp_all add: getPositiveIntParam_default)
  have m: "params_get ps key = Some v \<and> dropWhile isWhiteSpace v = CHR ''-'' # r \<longrightarrow>
      getPositiveIntParam ps key d = d"
  proof
    assume h: "params_get ps key = Some v \<and> dropWhile isWhiteSpace v = CHR ''-'' # r"
    then have "case parseInt v of None \<Rightarrow> True | Some n \<Rightarrow> n \<le> 0"
      by (intro parseInt_minus) simp
    with h show "getPositiveIntParam ps key d = d"
      by (intro getPositiveIntParam_default) simp
  qed
  have p: "params_get ps key = Some v \<and> parseInt v = Some n \<and> 0 < n \<and> n \<le> 2 ^ 53 \<longrightarrow>
      getPositiveIntParam ps key d = n"
    by (simp add: getPositiveIntParam_def toStringOrNull_def)
  have q: "params_get ps key = Some v \<and> v \<noteq> [] \<and> list_all (isRadixDigit 10) v \<and>
      0 < radixValue 10 v \<and> radixValue 10 v \<le> 2 ^ 53 \<longrightarrow>
      getPositiveIntParam ps key d = int (radixValue 10 v)"
  proof
    assume h: "params_get ps key = Some v \<and> v \<noteq> [] \<and> list_all (isRadixDigit 10) v \<and>
      0 < radixValue 10 v \<and> radixValue 10 v \<le> 2 ^ 53"
    then have "parseInt v = Some (int (radixValue 10 v))"
      by (intro parseInt_decimal) simp_all
    with h show "getPositiveIntParam ps key d = int (radixValue 10 v)"
      by (simp add: getPositiveIntParam_def toStringOrNull_def)
  qed
  have f: "work (config (init [(''work'', ''-5'')])) = 25"
    by (simp add: init_fields parseUrlParams_defs DEFAULTS_def)
  from a b e m p q f show ?thesis
    by (simp only: parseUrlParams_durations)
qed

theorem duration_falls_back_to_default_witness:
  "work (parseUrlParams [(''work'', ''2.5''), (''short'', ''0''), (''long'', '' -3'')] DEFAULTS) = 2 \<and>
   short (parseUrlParams [(''work'', ''2.5''), (''short'', ''0''), (''long'', '' -3'')] DEFAULTS) = 5 \<and>
   long (parseUrlParams [(''work'', ''2.5''), (''short'', ''0''), (''long'', '' -3'')] DEFAULTS) = 15 \<and>
   work (parseUrlParams [(''short'', ''45''), (''long'', ''abc'')] DEFAULTS) = 25 \<and>
   short (parseUrlParams [(''short'', ''45''), (''long'', ''abc'')] DEFAULTS) = 45 \<and>
   long (parseUrlParams [(''short'', ''45''), (''long'', ''abc'')] DEFAULTS) = 15"
proof -
  let ?p = "[(''work'', ''2.5''), (''short'', ''0''), (''long'', '' -3'')]"
  let ?q = "[(''short'', ''45''), (''long'', ''abc'')]"
  have h1: "params_get ?p ''work'' = Some ''2.5'' \<and> parseInt ''2.5'' = Some 2 \<and>
      (0::int) < 2 \<and> (2::int) \<le> 2 ^ 53"
    and h2: "params_get ?p ''short'' = Some ''0'' \<and> parseInt ''0'' = Some 0 \<and> (0::int) \<le> 0"
    and h3: "params_get ?p ''long'' = Some '' -3'' \<and>
      dropWhile isWhiteSpace '' -3'' = CHR ''-'' # ''3''"
    and h4: "params_get ?q ''work'' = None"
    and h5: "params_get ?q ''short'' = Some ''45'' \<and> ''45'' \<noteq> [] \<and>
      list_all (isRadixDigit 10) ''45'' \<and> 0 < radixValue 10 ''45'' \<and>
      radixValue 10 ''45'' \<le> 2 ^ 53"
    and h6: "params_get ?q ''long'' = Some ''abc'' \<and> parseInt ''abc'' = None"
    and v: "int (radixValue 10 ''45'') = 45"
    by (simp_all add: params_get_def parseInt_def isWhiteSpace_def isRadixDigit_def digitVal_def
        radixValue_def)
  note i1 = duration_falls_back_to_default
    [where ps = ?p and c = DEFAULTS and key = "''work''" and d = 25 and v = "''2.5''" and n = 2]
  note i2 = duration_falls_back_to_default
    [where ps = ?p and c = DEFAULTS and key = "''short''" and d = 5 and v = "''0''" and n = 0]
  note i3 = duration_falls_back_to_default
    [where ps = ?p and c = DEFAULTS and key = "''long''" and d = 15 and v = "'' -3''"
      and r = "''3''"]
  note i4 = duration_falls_back_to_default
    [where ps = ?q and c = DEFAULTS and key = "''work''" and d = 25]
  note i5 = duration_falls_back_to_default
    [where ps = ?q and c = DEFAULTS and key = "''short''" and d = 5 and v = "''45''"]
  note i6 = duration_falls_back_to_default
    [where ps = ?q and c = DEFAULTS and key = "''long''" and d = 15 and v = "''abc''"]
  from i1 h1 have w1: "work (parseUrlParams ?p DEFAULTS) = 2"
    by metis
  from i2 h2 have w2: "short (parseUrlParams ?p DEFAULTS) = 5"
    by metis
  from i3 h3 have w3: "long (parseUrlParams ?p DEFAULTS) = 15"
    by metis
  from i4 h4 have w4: "work (parseUrlParams ?q DEFAULTS) = 25"
    by metis
  from i5 h5 v have w5: "short (parseUrlParams ?q DEFAULTS) = 45"
    by metis
  from i6 h6 have w6: "long (parseUrlParams ?q DEFAULTS) = 15"
    by metis
  from w1 w2 w3 w4 w5 w6 show ?thesis
    by blast
qed

text \<open>
  C7. \<open>startTimer\<close> on a running timer returns the page as it is: the remaining time, the
  mode, the cycle counter, the pending frame request and the \<open>lastTime\<close> it carries are
  untouched and no request is added, so whatever happens next happens as if the call had
  not been made. The click on Start, which calls \<open>initAudio\<close> first, does nothing more
  than \<open>initAudio\<close> then.
\<close>

theorem start_while_running_noop:
  "isRunning (state w) \<Longrightarrow>
   startTimer now w = w \<and> run es (startTimer now w) = run es w \<and>
   clickStart now w = initAudio w"
  by (simp add: startTimer_def clickStart_def initAudio_def)

theorem start_while_running_noop_witness:
  "isRunning (state (clickStart 0 (init []))) \<and>
   startTimer 700 (clickStart 0 (init [])) = clickStart 0 (init []) \<and>
   run [Frame 1000 1000] (startTimer 700 (clickStart 0 (init []))) =
     run [Frame 1000 1000] (clickStart 0 (init []))"
proof -
  have h: "isRunning (state (clickStart 0 (init [])))"
    by (simp add: clickStart_def)
  from start_while_running_noop [OF h, of 700 "[Frame 1000 1000]"] h show ?thesis
    by simp
qed

text \<open>
  C8. \<open>pauseTimer\<close> changes nothing of the state but \<open>isRunning\<close>, which it sets to false
  (so the remaining time, the mode and the cycle counter stay); the configuration and the
  tones stay; frames that come afterwards leave the state as it is; on a timer that is
  not running the state after the call is the state before it, and on a page that \<open>init\<close>
  and the events after it have produced the whole page, with the DOM and the frame
  requests, is as it was.
\<close>

theorem pause_keeps_session:
  "state (pauseTimer w) = (state w)\<lparr>isRunning := False\<rparr> \<and>
   config (pauseTimer w) = config w \<and> tones (pauseTimer w) = tones w \<and>
   state (run (frameEvents fs) (pauseTimer w)) = state (pauseTimer w) \<and>
   (\<not> isRunning (state w) \<longrightarrow> state (pauseTimer w) = state w) \<and>
   (\<not> isRunning (state (run es (init ps))) \<longrightarrow>
      pauseTimer (run es (init ps)) = run es (init ps))"
  using frames_not_running [of "pauseTimer w" fs] init_run_settled [of es ps]
    settled_pause_noop [of "run es (init ps)"]
  by auto

theorem pause_keeps_session_witness:
  "\<not> isRunning (state (run [Start 0, Pause] (init []))) \<and>
   pauseTimer (run [Start 0, Pause] (init [])) = run [Start 0, Pause] (init []) \<and>
   state (run (frameEvents [(16, 16), (5000, 5000)]) (pauseTimer (run [Start 0, Pause] (init [])))) =
     state (run [Start 0, Pause] (init []))"
proof -
  let ?w = "run [Start 0, Pause] (init [])"
  have h: "\<not> isRunning (state ?w)"
    by (simp add: clickPause_def)
  note k = pause_keeps_session [of ?w "[(16, 16), (5000, 5000)]" "[Start 0, Pause]" "[]"]
  from k h have p: "pauseTimer ?w = ?w"
    by blast
  from k have "state (run (frameEvents [(16, 16), (5000, 5000)]) (pauseTimer ?w)) =
      state (pauseTimer ?w)"
    by blast
  then have "state (run (frameEvents [(16, 16), (5000, 5000)]) (pauseTimer ?w)) = state ?w"
    by (simp only: p)
  with h p show ?thesis
    by blast
qed


text \<open>
  C10, as stated, fails where there is no audio context: with the parameters sound=gong,
  auto=1, short=1, a click on the skip button (before any click on Start) starts the short
  break; sixty frames later, one each second, it has run out and was completed as not
  skipped (the page is back in a work session), with \<open>gong\<close> as the configured sound, and
  no tone was played.
\<close>

theorem sound_without_audio_context_counterexample:
  "sound (config (init [(''sound'', ''gong''), (''auto'', ''1''), (''short'', ''1'')])) = ''gong'' \<and>
   mode (state (run [Skip 0] (init [(''sound'', ''gong''), (''auto'', ''1''), (''short'', ''1'')]))) = SHORT \<and>
   mode (state (run (Skip 0 # frameEvents (map (\<lambda>t. (t, t)) (everySecond 0 60)))
     (init [(''sound'', ''gong''), (''auto'', ''1''), (''short'', ''1'')]))) = WORK \<and>
   tones (run (Skip 0 # frameEvents (map (\<lambda>t. (t, t)) (everySecond 0 60)))
     (init [(''sound'', ''gong''), (''auto'', ''1''), (''short'', ''1'')])) = []"
proof -
  define w0 where "w0 = skipSession 0 (init [(''sound'', ''gong''), (''auto'', ''1''), (''short'', ''1'')])"
  have c: "parseUrlParams [(''sound'', ''gong''), (''auto'', ''1''), (''short'', ''1'')] DEFAULTS =
      \<lparr>work = 25, short = 1, long = 15, auto = True, sound = ''gong''\<rparr>"
    by (simp add: parseUrlParams_defs DEFAULTS_def)
  have t: "ticking w0 0"
    unfolding w0_def by (simp add: skipSession_ticking init_fields c)
  have m: "mode (state w0) = SHORT" "cycleCount (state w0) = 1" "tones w0 = []" "\<not> audioCtx w0"
    unfolding w0_def by (simp_all add: init_fields nextMode_WORK jsRem_def)
  have r: "timeRemaining (state w0) = int (Suc 59)"
    unfolding w0_def skipSession_def
    by (simp add: init_fields c nextMode_WORK jsRem_def modeDuration_def)
  have s: "(60::nat) = Suc 59"
    by simp
  note o = session_runs_out [OF t r]
  show ?thesis
    unfolding s
    using o(1,6) m
    by (simp add: clickReset_def w0_def [symmetric] init_fields c nextMode_SHORT
        del: everySecond.simps)
qed

text \<open>
  C10, amended. The sound parameter is stored as it is whenever it is present and not
  empty, whatever the string; absent or empty, it leaves the configured sound alone (the
  default is \<open>bell\<close>). On a completion that is not a skip, a configured sound other than
  \<open>bell\<close> and \<open>none\<close> plays the chime when there is an audio context, and nothing when there
  is none; it never plays the bell.
\<close>

theorem sound_param_not_validated:
  "(params_get ps ''sound'' = Some v \<and> v \<noteq> [] \<longrightarrow> sound (parseUrlParams ps c) = v) \<and>
   (params_get ps ''sound'' = None \<or> params_get ps ''sound'' = Some [] \<longrightarrow>
      sound (parseUrlParams ps c) = sound c) \<and>
   sound DEFAULTS = ''bell'' \<and>
   (sound (config w) \<noteq> ''bell'' \<and> sound (config w) \<noteq> ''none'' \<longrightarrow>
      tones (completeSession now False w) = tones w @ (if audioCtx w then [Chime] else []))"
  by (auto simp add: parseUrlParams_sound completeSession_tones DEFAULTS_def)

theorem sound_param_not_validated_witness:
  "sound (parseUrlParams [(''sound'', ''gong'')] DEFAULTS) = ''gong'' \<and>
   sound (parseUrlParams [(''sound'', [])] DEFAULTS) = ''bell'' \<and>
   tones (completeSession 0 False (clickStart 0 (init [(''sound'', ''gong'')]))) = [Chime]"
proof -
  have g: "params_get [(''sound'', ''gong'')] ''sound'' = Some ''gong'' \<and> ''gong'' \<noteq> []"
    and e: "params_get [(''sound'', [])] ''sound'' = None \<or>
            params_get [(''sound'', [])] ''sound'' = Some []"
    by (simp_all add: params_get_def)
  have c: "sound (config (clickStart 0 (init [(''sound'', ''gong'')]))) = ''gong''"
    by (simp add: init_fields parseUrlParams_sound params_get_def)
  have k: "sound (config (clickStart 0 (init [(''sound'', ''gong'')]))) \<noteq> ''bell'' \<and>
           sound (config (clickStart 0 (init [(''sound'', ''gong'')]))) \<noteq> ''none''"
    using c by simp
  from sound_param_not_validated
      [where ps = "[(''sound'', ''gong'')]" and v = "''gong''" and c = DEFAULTS
        and w = "clickStart 0 (init [(''sound'', ''gong'')])" and now = 0]
    sound_param_not_validated
      [where ps = "[(''sound'', [])]" and v = "[]" and c = DEFAULTS
        and w = "clickStart 0 (init [(''sound'', ''gong'')])" and now = 0]
    g e k
  show ?thesis
    by (simp add: init_fields DEFAULTS_def)
qed

end
